theory Spec2Isabelle
  imports Main "HOL-Library.Sublist"
begin

section \<open>Data model\<close>

text \<open>
  The values a header entry of a request config can hold at run time. The rewrite
  only reads them through JavaScript truthiness (\<^verbatim>\<open>a || b\<close>, \<^verbatim>\<open>if (token)\<close>), so the
  model keeps the primitive values whose truthiness differs. Numbers are integers here
  (no NaN); arrays and objects, which are always truthy, are left out.
\<close>

datatype jsval = JUndefined | JNull | JBool bool | JNum int | JStr string

fun truthy :: "jsval \<Rightarrow> bool" where
  "truthy JUndefined = False"
| "truthy JNull = False"
| "truthy (JBool b) = b"
| "truthy (JNum n) = (n \<noteq> 0)"
| "truthy (JStr s) = (s \<noteq> [])"

text \<open>\<^verbatim>\<open>a || b\<close>: the left operand when it is truthy, the right one otherwise.\<close>

definition js_or :: "jsval \<Rightarrow> jsval \<Rightarrow> jsval" where
  "js_or a b = (if truthy a then a else b)"

text \<open>
  A header object is a mapping from header names to values. Reading a property that is
  absent gives \<^verbatim>\<open>undefined\<close>; \<^verbatim>\<open>delete h[k]\<close> removes the key; \<^verbatim>\<open>h[k] = v\<close> sets it.
\<close>

type_synonym header_map = "string \<rightharpoonup> jsval"

definition getProp :: "header_map \<Rightarrow> string \<Rightarrow> jsval" where
  "getProp h k = (case h k of None \<Rightarrow> JUndefined | Some v \<Rightarrow> v)"

definition deleteProp :: "header_map \<Rightarrow> string \<Rightarrow> header_map" where
  "deleteProp h k = h(k := None)"

definition setProp :: "header_map \<Rightarrow> string \<Rightarrow> jsval \<Rightarrow> header_map" where
  "setProp h k v = h(k \<mapsto> v)"

text \<open>
  The request config (the spec's outgoing request descriptor): the header object, which
  may be missing (\<^verbatim>\<open>config.headers\<close> falsy), and the fields the rewrite never reads:
  target URL, method and body.
\<close>

record 'b config =
  headers :: "header_map option"
  url :: "string option"
  http_method :: "string option"
  data :: 'b

text \<open>The entry of the header mapping under a key: \<open>None\<close> when the key is not there.\<close>

definition headerAt :: "'b config \<Rightarrow> string \<Rightarrow> jsval option" where
  "headerAt c k = (case headers c of None \<Rightarrow> None | Some h \<Rightarrow> h k)"

section \<open>The header rewrite\<close>

text \<open>
  The request interceptor registered by \<^verbatim>\<open>createPatchedAxiosInstance\<close>
  (chatwoot-client-patch.ts), on a config object:
  \<^verbatim>\<open>
  if (config.headers) {
    const token = config.headers['api_access_token'] || config.headers['api-access-token'];
    if (token) {
      delete config.headers['api_access_token'];
      config.headers['api-access-token'] = token as string;
    }
  }
  return config;
  \<close>
  The calls to the logger are diagnostic output of a collaborator and are not modelled.
\<close>

definition normalize :: "'b config \<Rightarrow> 'b config" where
  "normalize config =
     (case headers config of
        None \<Rightarrow> config
      | Some h \<Rightarrow>
          (let token = js_or (getProp h ''api_access_token'') (getProp h ''api-access-token'')
           in if truthy token
              then config\<lparr>headers :=
                     Some (setProp (deleteProp h ''api_access_token'') ''api-access-token'' token)\<rparr>
              else config))"

text \<open>
  The interceptor as axios calls it. The argument is a JavaScript value: reading
  \<^verbatim>\<open>config.headers\<close> of \<^verbatim>\<open>undefined\<close> or \<^verbatim>\<open>null\<close> (\<open>None\<close>) throws a TypeError. On
  a header mapping that can be changed freely this is the only failure; the throws of the
  two writes on other header objects are modelled further down.
\<close>

datatype js_error = TypeError

definition requestInterceptor :: "'b config option \<Rightarrow> js_error + 'b config" where
  "requestInterceptor arg =
     (case arg of None \<Rightarrow> Inl TypeError | Some config \<Rightarrow> Inr (normalize config))"

text \<open>
  The wrapper that \<^verbatim>\<open>patchAxiosGlobally\<close> (patch-axios.ts) installs as \<^verbatim>\<open>axios.request\<close>
  and as \<^verbatim>\<open>Axios.prototype.request\<close>:
  \<^verbatim>\<open>
  if (config?.headers && config.headers['api_access_token']) {
    const token = config.headers['api_access_token'];
    delete config.headers['api_access_token'];
    config.headers['api-access-token'] = token;
  }
  return originalRequest.call(this, config);
  \<close>
  \<open>rewriteHeaders\<close> is the config that reaches the original request method. The optional
  chaining lets a missing config (\<open>None\<close>) through.
\<close>

definition rewriteHeaders :: "'b config option \<Rightarrow> 'b config option" where
  "rewriteHeaders arg =
     (case arg of
        None \<Rightarrow> None
      | Some config \<Rightarrow>
          (case headers config of
             None \<Rightarrow> Some config
           | Some h \<Rightarrow>
               if truthy (getProp h ''api_access_token'')
               then (let token = getProp h ''api_access_token''
                     in Some (config\<lparr>headers :=
                          Some (setProp (deleteProp h ''api_access_token'') ''api-access-token'' token)\<rparr>))
               else Some config))"

subsection \<open>The interceptor on objects with property attributes\<close>

text \<open>
  The two statements that change the header object can themselves throw. The source is
  module code (it has \<^verbatim>\<open>import\<close> and \<^verbatim>\<open>export\<close>), hence strict: \<^verbatim>\<open>delete h[k]\<close> throws
  a TypeError when \<open>k\<close> is an own property that is not configurable, and \<^verbatim>\<open>h[k] = v\<close>
  throws a TypeError when \<open>k\<close> is an own property that is not writable, or is not there
  and the object is not extensible (a sealed or frozen object). To state that the
  interceptor does not fail, the header object is modelled a second time, with these
  attributes: a data property has a value and the two flags, an object has its own
  properties and the extensible flag. Accessor properties and inherited ones are left out.
\<close>

record property =
  pvalue :: jsval
  writable :: bool
  configurable :: bool

record js_object =
  properties :: "string \<rightharpoonup> property"
  extensible :: bool

text \<open>\<^verbatim>\<open>obj[k]\<close>: the value of the own property, \<^verbatim>\<open>undefined\<close> when there is none.\<close>

definition getValue :: "js_object \<Rightarrow> string \<Rightarrow> jsval" where
  "getValue obj k = (case properties obj k of None \<Rightarrow> JUndefined | Some p \<Rightarrow> pvalue p)"

text \<open>\<^verbatim>\<open>delete obj[k]\<close> in strict code.\<close>

definition deleteStrict :: "js_object \<Rightarrow> string \<Rightarrow> js_error + js_object" where
  "deleteStrict obj k =
     (case properties obj k of
        None \<Rightarrow> Inr obj
      | Some p \<Rightarrow>
          if configurable p then Inr (obj\<lparr>properties := (properties obj)(k := None)\<rparr>)
          else Inl TypeError)"

text \<open>
  \<^verbatim>\<open>obj[k] = v\<close> in strict code: an existing writable property gets the value and keeps
  its flags; a new property of an extensible object is writable and configurable.
\<close>

definition assignStrict :: "js_object \<Rightarrow> string \<Rightarrow> jsval \<Rightarrow> js_error + js_object" where
  "assignStrict obj k v =
     (case properties obj k of
        None \<Rightarrow>
          if extensible obj
          then Inr (obj\<lparr>properties :=
                 (properties obj)(k \<mapsto> \<lparr>pvalue = v, writable = True, configurable = True\<rparr>)\<rparr>)
          else Inl TypeError
      | Some p \<Rightarrow>
          if writable p then Inr (obj\<lparr>properties := (properties obj)(k \<mapsto> p\<lparr>pvalue := v\<rparr>)\<rparr>)
          else Inl TypeError)"

text \<open>The request config with such a header object.\<close>

record 'b request_config =
  cfg_headers :: "js_object option"
  cfg_url :: "string option"
  cfg_method :: "string option"
  cfg_data :: 'b

text \<open>
  The same interceptor of \<^verbatim>\<open>createPatchedAxiosInstance\<close>, statement by statement, with
  every throw as a branch: the read of \<^verbatim>\<open>config.headers\<close> on a missing config, the
  \<^verbatim>\<open>delete\<close>, and the assignment, which runs only when the \<^verbatim>\<open>delete\<close> has returned.
\<close>

definition interceptorStrict :: "'b request_config option \<Rightarrow> js_error + 'b request_config" where
  "interceptorStrict arg =
     (case arg of
        None \<Rightarrow> Inl TypeError
      | Some config \<Rightarrow>
          (case cfg_headers config of
             None \<Rightarrow> Inr config
           | Some h \<Rightarrow>
               (let token = js_or (getValue h ''api_access_token'') (getValue h ''api-access-token'')
                in if truthy token
                   then (case deleteStrict h ''api_access_token'' of
                           Inl e \<Rightarrow> Inl e
                         | Inr h1 \<Rightarrow>
                             (case assignStrict h1 ''api-access-token'' token of
                                Inl e \<Rightarrow> Inl e
                              | Inr h2 \<Rightarrow> Inr (config\<lparr>cfg_headers := Some h2\<rparr>)))
                   else Inr config)))"

text \<open>
  A well-formed config: its header object, when there is one, lets the interceptor's two
  writes through: \<^verbatim>\<open>api_access_token\<close> can be deleted and \<^verbatim>\<open>api-access-token\<close> can be
  assigned. Every ordinary object (extensible, all properties writable and configurable)
  is of this kind, so are the header objects axios builds.
\<close>

definition canDelete :: "js_object \<Rightarrow> string \<Rightarrow> bool" where
  "canDelete obj k = (case properties obj k of None \<Rightarrow> True | Some p \<Rightarrow> configurable p)"

definition canAssign :: "js_object \<Rightarrow> string \<Rightarrow> bool" where
  "canAssign obj k = (case properties obj k of None \<Rightarrow> extensible obj | Some p \<Rightarrow> writable p)"

definition wellFormed :: "'b request_config \<Rightarrow> bool" where
  "wellFormed config =
     (case cfg_headers config of
        None \<Rightarrow> True
      | Some h \<Rightarrow> canDelete h ''api_access_token'' \<and> canAssign h ''api-access-token'')"

text \<open>
  Forgetting the attributes gives the header mapping, and the config, of the first model.
\<close>

definition valuesOf :: "js_object \<Rightarrow> header_map" where
  "valuesOf obj = (\<lambda>k. map_option pvalue (properties obj k))"

definition descriptorOf :: "'b request_config \<Rightarrow> 'b config" where
  "descriptorOf config =
     \<lparr>headers = map_option valuesOf (cfg_headers config), url = cfg_url config,
      http_method = cfg_method config, data = cfg_data config\<rparr>"

section \<open>The global patch and its flag\<close>

text \<open>
  The value stored in \<^verbatim>\<open>axios.request\<close> (and in \<^verbatim>\<open>Axios.prototype.request\<close>): the
  library's own method, or the wrapper closure of \<^verbatim>\<open>patchAxiosGlobally\<close> around the
  method it captured as \<^verbatim>\<open>originalRequest\<close>.
\<close>

datatype request_fn = OriginalRequest | PatchedRequest request_fn

text \<open>The config the library's own method receives when the stored function is called.\<close>

fun configSent :: "request_fn \<Rightarrow> 'b config option \<Rightarrow> 'b config option" where
  "configSent OriginalRequest arg = arg"
| "configSent (PatchedRequest originalRequest) arg = configSent originalRequest (rewriteHeaders arg)"

text \<open>How many rewrite wrappers are layered in a stored function.\<close>

fun layers :: "request_fn \<Rightarrow> nat" where
  "layers OriginalRequest = 0"
| "layers (PatchedRequest originalRequest) = Suc (layers originalRequest)"

text \<open>
  The axios object: its \<^verbatim>\<open>request\<close> property and, when \<^verbatim>\<open>axios.Axios\<close> and its prototype
  are there, \<^verbatim>\<open>Axios.prototype.request\<close>. The process state of patch-axios.ts: the
  module-level flag \<^verbatim>\<open>patched\<close> and the axios module, \<open>None\<close> when \<^verbatim>\<open>require('axios')\<close>
  throws.
\<close>

record axios_object =
  request :: request_fn
  prototype_request :: "request_fn option"

record process =
  patched :: bool
  axios :: "axios_object option"

text \<open>
  \<^verbatim>\<open>patchAxiosGlobally\<close>: return at once when the flag is set; otherwise, in a
  \<^verbatim>\<open>try\<close>, load axios (the module's \<^verbatim>\<open>default\<close> export when it has one, the module
  itself otherwise), store the wrapper around the current \<^verbatim>\<open>axios.request\<close>, the same
  for the prototype's method when it exists, and set the flag. When \<^verbatim>\<open>require\<close> throws,
  the \<^verbatim>\<open>catch\<close> only logs: nothing is wrapped and the flag stays unset.
\<close>

definition patchAxiosGlobally :: "process \<Rightarrow> process" where
  "patchAxiosGlobally s =
     (if patched s then s
      else (case axios s of
              None \<Rightarrow> s
            | Some ax \<Rightarrow>
                s\<lparr>axios := Some (ax\<lparr>request := PatchedRequest (request ax),
                        prototype_request := map_option PatchedRequest (prototype_request ax)\<rparr>),
                  patched := True\<rparr>))"

section \<open>The post-install patch of the SDK file\<close>

text \<open>
  \<^verbatim>\<open>content.includes(pat)\<close>: \<open>pat\<close> occurs in \<open>content\<close> as a contiguous substring.
\<close>

fun includes_str :: "string \<Rightarrow> string \<Rightarrow> bool" where
  "includes_str [] pat = (pat = [])"
| "includes_str (c # cs) pat = (prefix pat (c # cs) \<or> includes_str cs pat)"

text \<open>
  \<^verbatim>\<open>content.replace(pat, rep)\<close> with a string pattern: the leftmost occurrence of \<open>pat\<close>
  is replaced by \<open>rep\<close>, the rest is kept. (The replacement patterns that start with a
  dollar sign do not arise: the script's replacement has none.)
\<close>

fun replace :: "string \<Rightarrow> string \<Rightarrow> string \<Rightarrow> string" where
  "replace [] pat rep = (if pat = [] then rep else [])"
| "replace (c # cs) pat rep =
     (if prefix pat (c # cs) then rep @ drop (length pat) (c # cs)
      else c # replace cs pat rep)"

definition originalLine :: string where
  \<open>originalLine = ''headers["api_access_token"] = token;''\<close>

definition patchedLine :: string where
  \<open>patchedLine = ''headers["api-access-token"] = token;''\<close>

text \<open>
  One run of the script on the SDK's \<^verbatim>\<open>request.js\<close>, \<open>None\<close> when the file does not
  exist: the exit code, whether \<^verbatim>\<open>writeFileSync\<close> was called, and the file afterwards.
  Reading and writing an existing file are taken to succeed (a throw there ends in the
  \<^verbatim>\<open>catch\<close> with exit code 1).
\<close>

record run =
  exitCode :: nat
  wrote :: bool
  fileAfter :: "string option"

definition patchScript :: "string option \<Rightarrow> run" where
  "patchScript old =
     (case old of
        None \<Rightarrow> \<lparr>exitCode = 0, wrote = False, fileAfter = None\<rparr>
      | Some content \<Rightarrow>
          if includes_str content ''api-access-token''
          then \<lparr>exitCode = 0, wrote = False, fileAfter = Some content\<rparr>
          else if \<not> includes_str content originalLine
          then \<lparr>exitCode = 1, wrote = False, fileAfter = Some content\<rparr>
          else \<lparr>exitCode = 0, wrote = True,
                 fileAfter = Some (replace content originalLine patchedLine)\<rparr>)"

section \<open>Basic facts\<close>

lemma truthy_js_or: "truthy (js_or a b) = (truthy a \<or> truthy b)"
  by (simp add: js_or_def)

lemma normalize_no_headers: "headers c = None \<Longrightarrow> normalize c = c"
  by (simp add: normalize_def)

lemma normalize_falsy:
  "headers c = Some h \<Longrightarrow>
   \<not> truthy (js_or (getProp h ''api_access_token'') (getProp h ''api-access-token'')) \<Longrightarrow>
   normalize c = c"
  by (simp add: normalize_def Let_def)

lemma normalize_truthy:
  "headers c = Some h \<Longrightarrow>
   truthy (js_or (getProp h ''api_access_token'') (getProp h ''api-access-token'')) \<Longrightarrow>
   normalize c = c\<lparr>headers := Some ((h(''api_access_token'' := None))(''api-access-token'' \<mapsto>
       js_or (getProp h ''api_access_token'') (getProp h ''api-access-token'')))\<rparr>"
  by (simp add: normalize_def Let_def setProp_def deleteProp_def)

lemma map_upd_same: "h k = Some v \<Longrightarrow> h(k \<mapsto> v) = h"
  by (rule ext) simp

lemma map_del_absent: "h k = None \<Longrightarrow> h(k := None) = h"
  by (rule ext) simp

lemma getProp_Some: "h k = Some v \<Longrightarrow> getProp h k = v"
  by (simp add: getProp_def)

lemma getProp_None: "h k = None \<Longrightarrow> getProp h k = JUndefined"
  by (simp add: getProp_def)

lemma normalize_settled:
  assumes "headers c = Some h" and "h ''api_access_token'' = None"
    and "h ''api-access-token'' = Some t" and "truthy t"
  shows "normalize c = c"
proof -
  have tok: "js_or (getProp h ''api_access_token'') (getProp h ''api-access-token'') = t"
    using assms by (simp add: js_or_def getProp_def)
  have "(h(''api_access_token'' := None))(''api-access-token'' \<mapsto> t) = h"
    using assms by (simp add: map_del_absent map_upd_same)
  then have "normalize c = c\<lparr>headers := Some h\<rparr>"
    using normalize_truthy [OF assms(1)] tok assms(4) by simp
  then show ?thesis using assms(1) by simp
qed

section \<open>Claims about the rewrite\<close>

text \<open>
  C2. The rewrite is idempotent: normalizing a normalized config gives the same config
  again.
\<close>

theorem normalize_idempotent: "normalize (normalize d) = normalize d"
proof (cases "headers d")
  case None
  then show ?thesis by (simp add: normalize_no_headers)
next
  case (Some h)
  let ?t = "js_or (getProp h ''api_access_token'') (getProp h ''api-access-token'')"
  show ?thesis
  proof (cases "truthy ?t")
    case False
    with Some show ?thesis by (simp add: normalize_falsy)
  next
    case True
    let ?h' = "(h(''api_access_token'' := None))(''api-access-token'' \<mapsto> ?t)"
    from Some True have first: "normalize d = d\<lparr>headers := Some ?h'\<rparr>"
      by (rule normalize_truthy)
    have "normalize (d\<lparr>headers := Some ?h'\<rparr>) = d\<lparr>headers := Some ?h'\<rparr>"
    proof (rule normalize_settled)
      show "headers (d\<lparr>headers := Some ?h'\<rparr>) = Some ?h'" by simp
      show "?h' ''api_access_token'' = None" by simp
      show "?h' ''api-access-token'' = Some ?t" by simp
      show "truthy ?t" by (rule True)
    qed
    with first show ?thesis by simp
  qed
qed

lemma rewriteHeaders_truthy:
  "headers c = Some h \<Longrightarrow> truthy (getProp h ''api_access_token'') \<Longrightarrow>
   rewriteHeaders (Some c) = Some (c\<lparr>headers :=
     Some ((h(''api_access_token'' := None))(''api-access-token'' \<mapsto> getProp h ''api_access_token''))\<rparr>)"
  by (simp add: rewriteHeaders_def Let_def setProp_def deleteProp_def)

lemma rewriteHeaders_falsy:
  "headers c = Some h \<Longrightarrow> \<not> truthy (getProp h ''api_access_token'') \<Longrightarrow>
   rewriteHeaders (Some c) = Some c"
  by (simp add: rewriteHeaders_def)

lemma rewriteHeaders_no_headers: "headers c = None \<Longrightarrow> rewriteHeaders (Some c) = Some c"
  by (simp add: rewriteHeaders_def)

lemma headerAt_Some_headers: "headerAt c k = Some v \<Longrightarrow> \<exists>h. headers c = Some h \<and> h k = Some v"
  by (cases "headers c") (simp_all add: headerAt_def)

text \<open>
  C1 (as the spec states it). A config with \<^verbatim>\<open>api_access_token = v\<close> and no
  \<^verbatim>\<open>api-access-token\<close> key comes back with no \<^verbatim>\<open>api_access_token\<close> key and
  \<^verbatim>\<open>api-access-token = v\<close>. This fails for a falsy \<open>v\<close>: with the empty string under
  \<^verbatim>\<open>api_access_token\<close> both the interceptor and the global wrapper leave the config as
  it is, the underscore key still there and no hyphenated key set.
\<close>

theorem rename_empty_token_counterexample:
  "headerAt \<lparr>headers = Some [''api_access_token'' \<mapsto> JStr ''''], url = Some ''/api/v1/accounts/1/contacts'',
       http_method = Some ''get'', data = ()\<rparr> ''api_access_token'' = Some (JStr '''')
   \<and> headerAt \<lparr>headers = Some [''api_access_token'' \<mapsto> JStr ''''], url = Some ''/api/v1/accounts/1/contacts'',
       http_method = Some ''get'', data = ()\<rparr> ''api-access-token'' = None
   \<and> headerAt (normalize \<lparr>headers = Some [''api_access_token'' \<mapsto> JStr ''''],
       url = Some ''/api/v1/accounts/1/contacts'', http_method = Some ''get'', data = ()\<rparr>)
         ''api_access_token'' = Some (JStr '''')
   \<and> headerAt (normalize \<lparr>headers = Some [''api_access_token'' \<mapsto> JStr ''''],
       url = Some ''/api/v1/accounts/1/contacts'', http_method = Some ''get'', data = ()\<rparr>)
         ''api-access-token'' = None
   \<and> rewriteHeaders (Some \<lparr>headers = Some [''api_access_token'' \<mapsto> JStr ''''],
       url = Some ''/api/v1/accounts/1/contacts'', http_method = Some ''get'', data = ()\<rparr>)
     = Some \<lparr>headers = Some [''api_access_token'' \<mapsto> JStr ''''],
       url = Some ''/api/v1/accounts/1/contacts'', http_method = Some ''get'', data = ()\<rparr>"
  by (simp add: headerAt_def normalize_def rewriteHeaders_def js_or_def getProp_def)

text \<open>
  C1 (amended). For a truthy \<open>v\<close>: a config with \<^verbatim>\<open>api_access_token = v\<close> and no
  \<^verbatim>\<open>api-access-token\<close> key comes back from the interceptor, and reaches the original
  request method through the global wrapper, with no \<^verbatim>\<open>api_access_token\<close> key and
  \<^verbatim>\<open>api-access-token = v\<close>.
\<close>

theorem rename_truthy_token:
  assumes "truthy v"
    and "headerAt d ''api_access_token'' = Some v"
    and "headerAt d ''api-access-token'' = None"
  shows "headerAt (normalize d) ''api_access_token'' = None
       \<and> headerAt (normalize d) ''api-access-token'' = Some v
       \<and> (\<exists>d'. rewriteHeaders (Some d) = Some d'
             \<and> headerAt d' ''api_access_token'' = None
             \<and> headerAt d' ''api-access-token'' = Some v)"
proof -
  from assms(2) obtain h where h: "headers d = Some h" "h ''api_access_token'' = Some v"
    by (auto dest: headerAt_Some_headers)
  have us: "getProp h ''api_access_token'' = v"
    using h(2) by (rule getProp_Some)
  have tok: "js_or (getProp h ''api_access_token'') (getProp h ''api-access-token'') = v"
    using us assms(1) by (simp add: js_or_def)
  have n: "normalize d = d\<lparr>headers :=
      Some ((h(''api_access_token'' := None))(''api-access-token'' \<mapsto> v))\<rparr>"
    using normalize_truthy [OF h(1)] tok assms(1) by simp
  have r: "rewriteHeaders (Some d) = Some (d\<lparr>headers :=
      Some ((h(''api_access_token'' := None))(''api-access-token'' \<mapsto> v))\<rparr>)"
    using rewriteHeaders_truthy [OF h(1)] us assms(1) by simp
  show ?thesis
    unfolding n r by (simp add: headerAt_def)
qed

theorem rename_truthy_token_witness:
  "truthy (JStr ''tok-123'')
   \<and> headerAt (normalize \<lparr>headers = Some [''api_access_token'' \<mapsto> JStr ''tok-123''],
        url = Some ''/api/v1/accounts/1/contacts'', http_method = None, data = ()\<rparr>)
        ''api_access_token'' = None
   \<and> headerAt (normalize \<lparr>headers = Some [''api_access_token'' \<mapsto> JStr ''tok-123''],
        url = Some ''/api/v1/accounts/1/contacts'', http_method = None, data = ()\<rparr>)
        ''api-access-token'' = Some (JStr ''tok-123'')"
  using rename_truthy_token [of "JStr ''tok-123''"
      "\<lparr>headers = Some [''api_access_token'' \<mapsto> JStr ''tok-123''],
        url = Some ''/api/v1/accounts/1/contacts'', http_method = None, data = ()\<rparr>"]
  by (simp add: headerAt_def)

lemma headerAt_None_cases:
  "headerAt c k = None \<Longrightarrow> headers c = None \<or> (\<exists>h. headers c = Some h \<and> h k = None)"
  by (cases "headers c") (simp_all add: headerAt_def)

lemma normalize_no_underscore_key:
  assumes "headerAt d ''api_access_token'' = None"
  shows "normalize d = d"
proof (cases "headers d")
  case None
  then show ?thesis by (rule normalize_no_headers)
next
  case (Some h)
  with assms have us: "h ''api_access_token'' = None"
    by (simp add: headerAt_def)
  show ?thesis
  proof (cases "h ''api-access-token''")
    case None
    with us have "\<not> truthy (js_or (getProp h ''api_access_token'') (getProp h ''api-access-token''))"
      by (simp add: js_or_def getProp_def)
    with Some show ?thesis by (rule normalize_falsy)
  next
    case hy: (Some t)
    show ?thesis
    proof (cases "truthy t")
      case True
      from Some us hy True show ?thesis by (rule normalize_settled)
    next
      case False
      with us hy have "\<not> truthy (js_or (getProp h ''api_access_token'') (getProp h ''api-access-token''))"
        by (simp add: js_or_def getProp_def)
      with Some show ?thesis by (rule normalize_falsy)
    qed
  qed
qed

lemma normalize_headers_only: "normalize d = d\<lparr>headers := headers (normalize d)\<rparr>"
  by (cases "headers d") (simp_all add: normalize_def Let_def)

lemma normalize_other_keys:
  "k \<noteq> ''api_access_token'' \<Longrightarrow> k \<noteq> ''api-access-token'' \<Longrightarrow>
   headerAt (normalize d) k = headerAt d k"
  by (cases "headers d")
     (simp_all add: normalize_def headerAt_def Let_def setProp_def deleteProp_def)

lemma normalize_keeps_headers_object: "(headers (normalize d) = None) = (headers d = None)"
  by (cases "headers d") (simp_all add: normalize_def Let_def)

text \<open>
  C3 (as the spec states it). After normalization the header mapping has no key
  \<^verbatim>\<open>api_access_token\<close>, for every input. This fails when the key holds a falsy value and
  no truthy value stands under \<^verbatim>\<open>api-access-token\<close>: the guard \<^verbatim>\<open>if (token)\<close> skips the
  \<^verbatim>\<open>delete\<close>, here with the empty string under the underscore key, beside another
  header. The global wrapper passes the same config on as it is.
\<close>

theorem underscore_key_survives_counterexample:
  "headerAt (normalize \<lparr>headers = Some [''api_access_token'' \<mapsto> JStr '''',
        ''content-type'' \<mapsto> JStr ''application/json''],
      url = Some ''/api/v1/ping'', http_method = Some ''post'', data = ()\<rparr>)
     ''api_access_token'' = Some (JStr '''')
   \<and> headerAt (normalize \<lparr>headers = Some [''api_access_token'' \<mapsto> JStr '''',
        ''content-type'' \<mapsto> JStr ''application/json''],
      url = Some ''/api/v1/ping'', http_method = Some ''post'', data = ()\<rparr>)
     ''api_access_token'' \<noteq> None
   \<and> rewriteHeaders (Some \<lparr>headers = Some [''api_access_token'' \<mapsto> JStr '''',
        ''content-type'' \<mapsto> JStr ''application/json''],
      url = Some ''/api/v1/ping'', http_method = Some ''post'', data = ()\<rparr>)
     = Some \<lparr>headers = Some [''api_access_token'' \<mapsto> JStr '''',
        ''content-type'' \<mapsto> JStr ''application/json''],
      url = Some ''/api/v1/ping'', http_method = Some ''post'', data = ()\<rparr>"
  by (simp add: headerAt_def normalize_def rewriteHeaders_def js_or_def getProp_def)

text \<open>
  C3 (amended). The interceptor's result has no \<^verbatim>\<open>api_access_token\<close> key whenever the
  input has no such key or holds a truthy value under \<^verbatim>\<open>api_access_token\<close> or under
  \<^verbatim>\<open>api-access-token\<close>. The config the global wrapper passes on has no
  \<^verbatim>\<open>api_access_token\<close> key whenever the input has no such key or holds a truthy value
  under it.
\<close>

theorem no_underscore_key_after:
  "(headerAt d ''api_access_token'' = None
      \<or> (\<exists>v. truthy v \<and> (headerAt d ''api_access_token'' = Some v
                          \<or> headerAt d ''api-access-token'' = Some v))
     \<longrightarrow> headerAt (normalize d) ''api_access_token'' = None)
   \<and> (headerAt d ''api_access_token'' = None
      \<or> (\<exists>v. truthy v \<and> headerAt d ''api_access_token'' = Some v)
     \<longrightarrow> (\<exists>d'. rewriteHeaders (Some d) = Some d' \<and> headerAt d' ''api_access_token'' = None))"
proof (intro conjI impI)
  assume a: "headerAt d ''api_access_token'' = None
      \<or> (\<exists>v. truthy v \<and> (headerAt d ''api_access_token'' = Some v
                          \<or> headerAt d ''api-access-token'' = Some v))"
  show "headerAt (normalize d) ''api_access_token'' = None"
  proof (cases "headerAt d ''api_access_token'' = None")
    case True
    then show ?thesis by (simp add: normalize_no_underscore_key)
  next
    case False
    with a obtain v where v: "truthy v"
      "headerAt d ''api_access_token'' = Some v \<or> headerAt d ''api-access-token'' = Some v"
      by blast
    then obtain h where h: "headers d = Some h"
      and hv: "h ''api_access_token'' = Some v \<or> h ''api-access-token'' = Some v"
      by (auto dest: headerAt_Some_headers)
    from hv v(1) have "truthy (getProp h ''api_access_token'') \<or> truthy (getProp h ''api-access-token'')"
      by (auto simp: getProp_def)
    then have "truthy (js_or (getProp h ''api_access_token'') (getProp h ''api-access-token''))"
      by (simp add: truthy_js_or)
    with h show ?thesis
      by (simp add: normalize_truthy headerAt_def)
  qed
next
  assume a: "headerAt d ''api_access_token'' = None
      \<or> (\<exists>v. truthy v \<and> headerAt d ''api_access_token'' = Some v)"
  show "\<exists>d'. rewriteHeaders (Some d) = Some d' \<and> headerAt d' ''api_access_token'' = None"
  proof (cases "headerAt d ''api_access_token'' = None")
    case True
    then have "rewriteHeaders (Some d) = Some d"
      by (auto dest!: headerAt_None_cases
          simp: rewriteHeaders_no_headers rewriteHeaders_falsy getProp_None)
    with True show ?thesis by simp
  next
    case False
    with a obtain v where v: "truthy v" "headerAt d ''api_access_token'' = Some v"
      by blast
    then obtain h where h: "headers d = Some h" "h ''api_access_token'' = Some v"
      by (auto dest: headerAt_Some_headers)
    with v(1) have "truthy (getProp h ''api_access_token'')"
      by (simp add: getProp_def)
    with h(1) show ?thesis
      by (simp add: rewriteHeaders_truthy headerAt_def)
  qed
qed

theorem no_underscore_key_after_witness:
  "headerAt (normalize \<lparr>headers = Some [''api_access_token'' \<mapsto> JStr ''tok-8''],
      url = None, http_method = None, data = ()\<rparr>) ''api_access_token'' = None
   \<and> (\<exists>d'. rewriteHeaders (Some \<lparr>headers = Some [''api_access_token'' \<mapsto> JStr ''tok-8''],
      url = None, http_method = None, data = ()\<rparr>) = Some d' \<and> headerAt d' ''api_access_token'' = None)"
proof -
  let ?d = "\<lparr>headers = Some [''api_access_token'' \<mapsto> JStr ''tok-8''],
      url = None, http_method = None, data = ()\<rparr>"
  have t: "truthy (JStr ''tok-8'') \<and> headerAt ?d ''api_access_token'' = Some (JStr ''tok-8'')"
    by (simp add: headerAt_def)
  then have p1: "headerAt ?d ''api_access_token'' = None
      \<or> (\<exists>v. truthy v \<and> (headerAt ?d ''api_access_token'' = Some v
                          \<or> headerAt ?d ''api-access-token'' = Some v))"
    by blast
  from t have p2: "headerAt ?d ''api_access_token'' = None
      \<or> (\<exists>v. truthy v \<and> headerAt ?d ''api_access_token'' = Some v)"
    by blast
  from no_underscore_key_after [of ?d] p1 p2 show ?thesis
    by blast
qed

text \<open>
  C4 (as the spec states it). With both keys present, \<^verbatim>\<open>api_access_token = v1\<close> and
  \<^verbatim>\<open>api-access-token = v2\<close>, the result maps \<^verbatim>\<open>api-access-token\<close> to \<open>v1\<close>. This fails
  for a falsy \<open>v1\<close>: \<^verbatim>\<open>v1 || v2\<close> is then \<open>v2\<close>, so the interceptor keeps \<open>v2\<close> under
  \<^verbatim>\<open>api-access-token\<close>; the global wrapper leaves the config as it is, underscore key
  included.
\<close>

theorem precedence_empty_underscore_counterexample:
  "headerAt \<lparr>headers = Some [''api_access_token'' \<mapsto> JStr '''', ''api-access-token'' \<mapsto> JStr ''tok-2''],
      url = Some ''/api/v1/profile'', http_method = Some ''get'', data = ()\<rparr> ''api_access_token''
     = Some (JStr '''')
   \<and> headerAt \<lparr>headers = Some [''api_access_token'' \<mapsto> JStr '''', ''api-access-token'' \<mapsto> JStr ''tok-2''],
      url = Some ''/api/v1/profile'', http_method = Some ''get'', data = ()\<rparr> ''api-access-token''
     = Some (JStr ''tok-2'')
   \<and> headerAt (normalize \<lparr>headers = Some [''api_access_token'' \<mapsto> JStr '''',
        ''api-access-token'' \<mapsto> JStr ''tok-2''],
      url = Some ''/api/v1/profile'', http_method = Some ''get'', data = ()\<rparr>) ''api-access-token''
     = Some (JStr ''tok-2'')
   \<and> headerAt (normalize \<lparr>headers = Some [''api_access_token'' \<mapsto> JStr '''',
        ''api-access-token'' \<mapsto> JStr ''tok-2''],
      url = Some ''/api/v1/profile'', http_method = Some ''get'', data = ()\<rparr>) ''api-access-token''
     \<noteq> Some (JStr '''')
   \<and> rewriteHeaders (Some \<lparr>headers = Some [''api_access_token'' \<mapsto> JStr '''',
        ''api-access-token'' \<mapsto> JStr ''tok-2''],
      url = Some ''/api/v1/profile'', http_method = Some ''get'', data = ()\<rparr>)
     = Some \<lparr>headers = Some [''api_access_token'' \<mapsto> JStr '''', ''api-access-token'' \<mapsto> JStr ''tok-2''],
      url = Some ''/api/v1/profile'', http_method = Some ''get'', data = ()\<rparr>"
  by (simp add: headerAt_def normalize_def rewriteHeaders_def js_or_def getProp_def
      setProp_def deleteProp_def)

text \<open>
  C4 (amended). With both keys present, \<^verbatim>\<open>api_access_token = v1\<close> truthy and
  \<^verbatim>\<open>api-access-token = v2\<close>, the interceptor's result, and the config the global wrapper
  passes on, map \<^verbatim>\<open>api-access-token\<close> to \<open>v1\<close> and have no \<^verbatim>\<open>api_access_token\<close> key.
\<close>

theorem underscore_takes_precedence:
  assumes "truthy v1"
    and "headerAt d ''api_access_token'' = Some v1"
    and "headerAt d ''api-access-token'' = Some v2"
  shows "headerAt (normalize d) ''api-access-token'' = Some v1
       \<and> headerAt (normalize d) ''api_access_token'' = None
       \<and> (\<exists>d'. rewriteHeaders (Some d) = Some d'
             \<and> headerAt d' ''api-access-token'' = Some v1
             \<and> headerAt d' ''api_access_token'' = None)"
proof -
  from assms(2) obtain h where h: "headers d = Some h" "h ''api_access_token'' = Some v1"
    by (auto dest: headerAt_Some_headers)
  have us: "getProp h ''api_access_token'' = v1"
    using h(2) by (rule getProp_Some)
  have tok: "js_or (getProp h ''api_access_token'') (getProp h ''api-access-token'') = v1"
    using us assms(1) by (simp add: js_or_def)
  have n: "normalize d = d\<lparr>headers :=
      Some ((h(''api_access_token'' := None))(''api-access-token'' \<mapsto> v1))\<rparr>"
    using normalize_truthy [OF h(1)] tok assms(1) by simp
  have r: "rewriteHeaders (Some d) = Some (d\<lparr>headers :=
      Some ((h(''api_access_token'' := None))(''api-access-token'' \<mapsto> v1))\<rparr>)"
    using rewriteHeaders_truthy [OF h(1)] us assms(1) by simp
  show ?thesis
    unfolding n r by (simp add: headerAt_def)
qed

theorem underscore_takes_precedence_witness:
  "truthy (JStr ''tok-1'')
   \<and> headerAt (normalize \<lparr>headers = Some [''api_access_token'' \<mapsto> JStr ''tok-1'',
        ''api-access-token'' \<mapsto> JStr ''tok-2''],
      url = None, http_method = None, data = ()\<rparr>) ''api-access-token'' = Some (JStr ''tok-1'')
   \<and> headerAt (normalize \<lparr>headers = Some [''api_access_token'' \<mapsto> JStr ''tok-1'',
        ''api-access-token'' \<mapsto> JStr ''tok-2''],
      url = None, http_method = None, data = ()\<rparr>) ''api_access_token'' = None"
  using underscore_takes_precedence [of "JStr ''tok-1''"
      "\<lparr>headers = Some [''api_access_token'' \<mapsto> JStr ''tok-1'',
        ''api-access-token'' \<mapsto> JStr ''tok-2''],
      url = None, http_method = None, data = ()\<rparr>" "JStr ''tok-2''"]
  by (simp add: headerAt_def)

text \<open>
  C5. A config with \<^verbatim>\<open>api-access-token = v\<close> and no \<^verbatim>\<open>api_access_token\<close> key, and a
  config with neither key, come back unchanged. The missing credential is not an error:
  the interceptor returns the config it was given, with no header key added.
\<close>

theorem hyphen_only_or_neither_unchanged:
  "(headerAt d ''api_access_token'' = None \<and> headerAt d ''api-access-token'' = Some v
      \<longrightarrow> normalize d = d)
   \<and> (headerAt d ''api_access_token'' = None \<and> headerAt d ''api-access-token'' = None
      \<longrightarrow> normalize d = d \<and> requestInterceptor (Some d) = Inr d
          \<and> headerAt (normalize d) ''api-access-token'' = None)"
  by (simp add: normalize_no_underscore_key requestInterceptor_def)

theorem hyphen_only_or_neither_unchanged_witness:
  "normalize \<lparr>headers = Some [''api-access-token'' \<mapsto> JStr ''tok-123''],
      url = Some ''/api/v1/ping'', http_method = None, data = ()\<rparr>
     = \<lparr>headers = Some [''api-access-token'' \<mapsto> JStr ''tok-123''],
      url = Some ''/api/v1/ping'', http_method = None, data = ()\<rparr>
   \<and> requestInterceptor (Some \<lparr>headers = Some Map.empty,
      url = Some ''/api/v1/ping'', http_method = None, data = ()\<rparr>)
     = Inr \<lparr>headers = Some Map.empty, url = Some ''/api/v1/ping'', http_method = None, data = ()\<rparr>"
  using hyphen_only_or_neither_unchanged [of
      "\<lparr>headers = Some [''api-access-token'' \<mapsto> JStr ''tok-123''],
        url = Some ''/api/v1/ping'', http_method = None, data = ()\<rparr>" "JStr ''tok-123''"]
    hyphen_only_or_neither_unchanged [of
      "\<lparr>headers = Some Map.empty, url = Some ''/api/v1/ping'', http_method = None, data = ()\<rparr>"]
  by (simp add: headerAt_def)

text \<open>
  C6. Everything of the config but the two header entries \<^verbatim>\<open>api_access_token\<close> and
  \<^verbatim>\<open>api-access-token\<close> is the same before and after: every other header, the URL, the
  method and the body; the result is the input with (at most) its header object replaced,
  and a config without a header object does not get one.
\<close>

theorem normalize_frame:
  "normalize d = d\<lparr>headers := headers (normalize d)\<rparr>
   \<and> url (normalize d) = url d
   \<and> http_method (normalize d) = http_method d
   \<and> data (normalize d) = data d
   \<and> (headers (normalize d) = None) = (headers d = None)
   \<and> (\<forall>k. k \<noteq> ''api_access_token'' \<longrightarrow> k \<noteq> ''api-access-token''
          \<longrightarrow> headerAt (normalize d) k = headerAt d k)"
proof -
  have "url (normalize d) = url d" "http_method (normalize d) = http_method d"
    "data (normalize d) = data d"
    by (cases "headers d"; simp add: normalize_def Let_def)+
  moreover have "\<forall>k. k \<noteq> ''api_access_token'' \<longrightarrow> k \<noteq> ''api-access-token''
          \<longrightarrow> headerAt (normalize d) k = headerAt d k"
    by (simp add: normalize_other_keys)
  moreover note normalize_headers_only [of d] normalize_keeps_headers_object [of d]
  ultimately show ?thesis by blast
qed

theorem normalize_frame_witness:
  "url (normalize \<lparr>headers = Some [''api_access_token'' \<mapsto> JStr ''tok-123'',
        ''content-type'' \<mapsto> JStr ''application/json''],
      url = Some ''/api/v1/accounts/1/contacts'', http_method = Some ''post'', data = ''{}''\<rparr>)
     = Some ''/api/v1/accounts/1/contacts''
   \<and> data (normalize \<lparr>headers = Some [''api_access_token'' \<mapsto> JStr ''tok-123'',
        ''content-type'' \<mapsto> JStr ''application/json''],
      url = Some ''/api/v1/accounts/1/contacts'', http_method = Some ''post'', data = ''{}''\<rparr>)
     = ''{}''
   \<and> headerAt (normalize \<lparr>headers = Some [''api_access_token'' \<mapsto> JStr ''tok-123'',
        ''content-type'' \<mapsto> JStr ''application/json''],
      url = Some ''/api/v1/accounts/1/contacts'', http_method = Some ''post'', data = ''{}''\<rparr>)
      ''content-type'' = Some (JStr ''application/json'')"
proof -
  let ?d = "\<lparr>headers = Some [''api_access_token'' \<mapsto> JStr ''tok-123'',
        ''content-type'' \<mapsto> JStr ''application/json''],
      url = Some ''/api/v1/accounts/1/contacts'', http_method = Some ''post'', data = ''{}''\<rparr>"
  have k: "''content-type'' \<noteq> ''api_access_token''" "''content-type'' \<noteq> ''api-access-token''"
    by simp_all
  note f = normalize_frame [of ?d, THEN conjunct2]
  have "url (normalize ?d) = url ?d"
    by (rule f [THEN conjunct1])
  moreover have "data (normalize ?d) = data ?d"
    by (rule f [THEN conjunct2, THEN conjunct2, THEN conjunct1])
  moreover have "headerAt (normalize ?d) ''content-type'' = headerAt ?d ''content-type''"
    by (rule f [THEN conjunct2, THEN conjunct2, THEN conjunct2, THEN conjunct2, rule_format, OF k])
  ultimately show ?thesis by (simp add: headerAt_def)
qed

lemma getProp_valuesOf: "getProp (valuesOf h) k = getValue h k"
  by (simp add: getProp_def getValue_def valuesOf_def split: option.split)

lemma deleteStrict_ok:
  "canDelete h k \<Longrightarrow> deleteStrict h k = Inr (h\<lparr>properties := (properties h)(k := None)\<rparr>)"
  by (cases "properties h k") (simp_all add: canDelete_def deleteStrict_def map_del_absent)

lemma deleteStrict_fails: "\<not> canDelete h k \<Longrightarrow> deleteStrict h k = Inl TypeError"
  by (cases "properties h k") (simp_all add: canDelete_def deleteStrict_def)

lemma assignStrict_ok:
  "canAssign h k \<Longrightarrow>
   \<exists>p. assignStrict h k v = Inr (h\<lparr>properties := (properties h)(k \<mapsto> p)\<rparr>)
     \<and> pvalue p = v \<and> writable p"
proof (cases "properties h k")
  case None
  assume "canAssign h k"
  with None have "assignStrict h k v = Inr (h\<lparr>properties :=
      (properties h)(k \<mapsto> \<lparr>pvalue = v, writable = True, configurable = True\<rparr>)\<rparr>)"
    by (simp add: canAssign_def assignStrict_def)
  moreover have "pvalue \<lparr>pvalue = v, writable = True, configurable = True\<rparr> = v"
    "writable \<lparr>pvalue = v, writable = True, configurable = True\<rparr>"
    by simp_all
  ultimately show ?thesis by blast
next
  case (Some q)
  assume "canAssign h k"
  with Some have "assignStrict h k v = Inr (h\<lparr>properties := (properties h)(k \<mapsto> q\<lparr>pvalue := v\<rparr>)\<rparr>)"
    "writable (q\<lparr>pvalue := v\<rparr>)"
    by (simp_all add: canAssign_def assignStrict_def)
  moreover have "pvalue (q\<lparr>pvalue := v\<rparr>) = v" by simp
  ultimately show ?thesis by blast
qed

lemma assignStrict_fails: "\<not> canAssign h k \<Longrightarrow> assignStrict h k v = Inl TypeError"
  by (cases "properties h k") (simp_all add: canAssign_def assignStrict_def)

lemma canAssign_after_delete:
  "k \<noteq> k' \<Longrightarrow> canAssign (h\<lparr>properties := (properties h)(k' := None)\<rparr>) k = canAssign h k"
  by (simp add: canAssign_def split: option.split)

lemma interceptorStrict_rewrite:
  assumes h: "cfg_headers c = Some h"
    and tok: "truthy (js_or (getValue h ''api_access_token'') (getValue h ''api-access-token''))"
    and del: "canDelete h ''api_access_token''"
    and asg: "canAssign h ''api-access-token''"
  shows "\<exists>p. interceptorStrict (Some c) =
           Inr (c\<lparr>cfg_headers := Some (h\<lparr>properties :=
             ((properties h)(''api_access_token'' := None))(''api-access-token'' \<mapsto> p)\<rparr>)\<rparr>)
         \<and> pvalue p = js_or (getValue h ''api_access_token'') (getValue h ''api-access-token'')
         \<and> writable p"
proof -
  let ?t = "js_or (getValue h ''api_access_token'') (getValue h ''api-access-token'')"
  let ?h1 = "h\<lparr>properties := (properties h)(''api_access_token'' := None)\<rparr>"
  have d: "deleteStrict h ''api_access_token'' = Inr ?h1"
    using del by (rule deleteStrict_ok)
  have "canAssign ?h1 ''api-access-token''"
    using asg by (simp add: canAssign_after_delete)
  from assignStrict_ok [OF this, of ?t]
  obtain p where p: "assignStrict ?h1 ''api-access-token'' ?t =
      Inr (?h1\<lparr>properties := (properties ?h1)(''api-access-token'' \<mapsto> p)\<rparr>)"
    "pvalue p = ?t" "writable p"
    by blast
  have "interceptorStrict (Some c) =
      Inr (c\<lparr>cfg_headers := Some (?h1\<lparr>properties := (properties ?h1)(''api-access-token'' \<mapsto> p)\<rparr>)\<rparr>)"
    using h tok d p(1) by (simp add: interceptorStrict_def Let_def)
  with p(2,3) show ?thesis by auto
qed

lemma interceptorStrict_skip:
  "cfg_headers c = Some h \<Longrightarrow>
   \<not> truthy (js_or (getValue h ''api_access_token'') (getValue h ''api-access-token'')) \<Longrightarrow>
   interceptorStrict (Some c) = Inr c"
  by (simp add: interceptorStrict_def Let_def)

lemma interceptorStrict_no_headers: "cfg_headers c = None \<Longrightarrow> interceptorStrict (Some c) = Inr c"
  by (simp add: interceptorStrict_def)

text \<open>An ordinary header object makes the config well-formed.\<close>

lemma ordinary_wellFormed:
  "cfg_headers c = Some h \<Longrightarrow> extensible h \<Longrightarrow>
   (\<forall>k p. properties h k = Some p \<longrightarrow> writable p \<and> configurable p) \<Longrightarrow>
   wellFormed c"
  by (auto simp: wellFormed_def canDelete_def canAssign_def split: option.split)

text \<open>
  The failures of the interceptor are live branches of this model: it throws exactly on a
  missing config and on a config that holds a truthy token in a header object that is
  not well-formed. The hypothesis of the totality theorem below is therefore needed.
\<close>

lemma interceptorStrict_fails_iff:
  "(\<exists>e. interceptorStrict arg = Inl e) =
     (arg = None \<or> (\<exists>c h. arg = Some c \<and> cfg_headers c = Some h
        \<and> truthy (js_or (getValue h ''api_access_token'') (getValue h ''api-access-token''))
        \<and> \<not> wellFormed c))"
proof (cases arg)
  case None
  then show ?thesis by (simp add: interceptorStrict_def)
next
  case (Some c)
  show ?thesis
  proof (cases "cfg_headers c")
    case None
    with Some show ?thesis by (simp add: interceptorStrict_no_headers)
  next
    case hs: (Some h)
    let ?t = "js_or (getValue h ''api_access_token'') (getValue h ''api-access-token'')"
    show ?thesis
    proof (cases "truthy ?t")
      case False
      with Some hs show ?thesis by (simp add: interceptorStrict_skip)
    next
      case True
      show ?thesis
      proof (cases "canDelete h ''api_access_token''")
        case del: True
        show ?thesis
        proof (cases "canAssign h ''api-access-token''")
          case asg: True
          from interceptorStrict_rewrite [OF hs True del asg]
          have "\<exists>c'. interceptorStrict (Some c) = Inr c'" by blast
          moreover have "wellFormed c" using hs del asg by (simp add: wellFormed_def)
          ultimately show ?thesis using Some by auto
        next
          case asg: False
          let ?h1 = "h\<lparr>properties := (properties h)(''api_access_token'' := None)\<rparr>"
          have "deleteStrict h ''api_access_token'' = Inr ?h1"
            using del by (rule deleteStrict_ok)
          moreover have "assignStrict ?h1 ''api-access-token'' ?t = Inl TypeError"
            using asg by (intro assignStrict_fails) (simp add: canAssign_after_delete)
          ultimately have "interceptorStrict (Some c) = Inl TypeError"
            using hs True by (simp add: interceptorStrict_def Let_def)
          moreover have "\<not> wellFormed c" using hs asg by (simp add: wellFormed_def)
          ultimately show ?thesis using Some hs True by auto
        qed
      next
        case del: False
        then have "deleteStrict h ''api_access_token'' = Inl TypeError"
          by (rule deleteStrict_fails)
        then have "interceptorStrict (Some c) = Inl TypeError"
          using hs True by (simp add: interceptorStrict_def Let_def)
        moreover have "\<not> wellFormed c" using hs del by (simp add: wellFormed_def)
        ultimately show ?thesis using Some hs True by auto
      qed
    qed
  qed
qed

text \<open>
  C7. The rewrite is total on well-formed configs. Called on a well-formed config, with
  or without a header object, the interceptor returns a config and throws nothing:
  neither the \<^verbatim>\<open>delete\<close> nor the assignment fails. The config returned is the input with
  at most its header object replaced; read as a header mapping it is the normalized
  input; the header object keeps its extensible flag and every property other than the
  two keys, attributes included; and the result is well-formed again, so the interceptor
  can run on it once more.
\<close>

theorem interceptor_total:
  assumes "wellFormed c"
  shows "\<exists>c'. interceptorStrict (Some c) = Inr c'
           \<and> c' = c\<lparr>cfg_headers := cfg_headers c'\<rparr>
           \<and> descriptorOf c' = normalize (descriptorOf c)
           \<and> (cfg_headers c' = None) = (cfg_headers c = None)
           \<and> (\<forall>h h'. cfg_headers c = Some h \<and> cfg_headers c' = Some h'
                 \<longrightarrow> extensible h' = extensible h
                   \<and> (\<forall>k. k \<noteq> ''api_access_token'' \<and> k \<noteq> ''api-access-token''
                         \<longrightarrow> properties h' k = properties h k))
           \<and> wellFormed c'"
proof (cases "cfg_headers c")
  case None
  show ?thesis
  proof (intro exI [of _ c] conjI)
    show "interceptorStrict (Some c) = Inr c"
      using None by (rule interceptorStrict_no_headers)
    show "descriptorOf c = normalize (descriptorOf c)"
      using None by (simp add: descriptorOf_def normalize_def)
    show "\<forall>h h'. cfg_headers c = Some h \<and> cfg_headers c = Some h'
                 \<longrightarrow> extensible h' = extensible h
                   \<and> (\<forall>k. k \<noteq> ''api_access_token'' \<and> k \<noteq> ''api-access-token''
                         \<longrightarrow> properties h' k = properties h k)"
      using None by simp
  qed (simp_all add: assms)
next
  case (Some h)
  let ?t = "js_or (getValue h ''api_access_token'') (getValue h ''api-access-token'')"
  have abs_tok: "js_or (getProp (valuesOf h) ''api_access_token'')
      (getProp (valuesOf h) ''api-access-token'') = ?t"
    by (simp add: getProp_valuesOf)
  have abs_h: "headers (descriptorOf c) = Some (valuesOf h)"
    using Some by (simp add: descriptorOf_def)
  show ?thesis
  proof (cases "truthy ?t")
    case False
    show ?thesis
    proof (intro exI [of _ c] conjI)
      show "interceptorStrict (Some c) = Inr c"
        using Some False by (rule interceptorStrict_skip)
      have "normalize (descriptorOf c) = descriptorOf c"
        using abs_h False abs_tok by (simp add: normalize_falsy)
      then show "descriptorOf c = normalize (descriptorOf c)" by simp
      show "\<forall>h h'. cfg_headers c = Some h \<and> cfg_headers c = Some h'
                 \<longrightarrow> extensible h' = extensible h
                   \<and> (\<forall>k. k \<noteq> ''api_access_token'' \<and> k \<noteq> ''api-access-token''
                         \<longrightarrow> properties h' k = properties h k)"
        by auto
    qed (simp_all add: assms)
  next
    case True
    from assms Some have del: "canDelete h ''api_access_token''"
      and asg: "canAssign h ''api-access-token''"
      by (simp_all add: wellFormed_def)
    from interceptorStrict_rewrite [OF Some True del asg]
    obtain p where p: "interceptorStrict (Some c) =
           Inr (c\<lparr>cfg_headers := Some (h\<lparr>properties :=
             ((properties h)(''api_access_token'' := None))(''api-access-token'' \<mapsto> p)\<rparr>)\<rparr>)"
      "pvalue p = ?t" "writable p"
      by blast
    let ?h' = "h\<lparr>properties :=
             ((properties h)(''api_access_token'' := None))(''api-access-token'' \<mapsto> p)\<rparr>"
    let ?c' = "c\<lparr>cfg_headers := Some ?h'\<rparr>"
    have vals: "valuesOf ?h' = ((valuesOf h)(''api_access_token'' := None))(''api-access-token'' \<mapsto> ?t)"
      using p(2) by (auto simp: valuesOf_def)
    have "normalize (descriptorOf c) = (descriptorOf c)\<lparr>headers :=
        Some (((valuesOf h)(''api_access_token'' := None))(''api-access-token'' \<mapsto> ?t))\<rparr>"
      using normalize_truthy [OF abs_h] True abs_tok by simp
    also have "\<dots> = descriptorOf ?c'"
      unfolding vals [symmetric] by (simp add: descriptorOf_def)
    finally have n: "descriptorOf ?c' = normalize (descriptorOf c)" by simp
    show ?thesis
    proof (intro exI [of _ ?c'] conjI)
      show "interceptorStrict (Some c) = Inr ?c'" by (rule p(1))
      show "descriptorOf ?c' = normalize (descriptorOf c)" by (rule n)
      show "wellFormed ?c'"
        using p(3) by (simp add: wellFormed_def canDelete_def canAssign_def)
      show "\<forall>h0 h'. cfg_headers c = Some h0 \<and> cfg_headers ?c' = Some h'
                 \<longrightarrow> extensible h' = extensible h0
                   \<and> (\<forall>k. k \<noteq> ''api_access_token'' \<and> k \<noteq> ''api-access-token''
                         \<longrightarrow> properties h' k = properties h0 k)"
        using Some by auto
      show "(cfg_headers ?c' = None) = (cfg_headers c = None)"
        using Some by simp
    qed simp
  qed
qed

theorem interceptor_total_witness:
  "wellFormed \<lparr>cfg_headers = Some \<lparr>properties = [''api_access_token'' \<mapsto>
        \<lparr>pvalue = JStr ''tok-123'', writable = True, configurable = True\<rparr>], extensible = True\<rparr>,
      cfg_url = Some ''/api/v1/accounts/1/contacts'', cfg_method = Some ''get'', cfg_data = ()\<rparr>
   \<and> interceptorStrict (Some \<lparr>cfg_headers = Some \<lparr>properties = [''api_access_token'' \<mapsto>
        \<lparr>pvalue = JStr ''tok-123'', writable = True, configurable = True\<rparr>], extensible = True\<rparr>,
      cfg_url = Some ''/api/v1/accounts/1/contacts'', cfg_method = Some ''get'', cfg_data = ()\<rparr>)
     = Inr \<lparr>cfg_headers = Some \<lparr>properties = [''api-access-token'' \<mapsto>
        \<lparr>pvalue = JStr ''tok-123'', writable = True, configurable = True\<rparr>], extensible = True\<rparr>,
      cfg_url = Some ''/api/v1/accounts/1/contacts'', cfg_method = Some ''get'', cfg_data = ()\<rparr>
   \<and> descriptorOf \<lparr>cfg_headers = Some \<lparr>properties = [''api-access-token'' \<mapsto>
        \<lparr>pvalue = JStr ''tok-123'', writable = True, configurable = True\<rparr>], extensible = True\<rparr>,
      cfg_url = Some ''/api/v1/accounts/1/contacts'', cfg_method = Some ''get'', cfg_data = ()\<rparr>
     = normalize (descriptorOf \<lparr>cfg_headers = Some \<lparr>properties = [''api_access_token'' \<mapsto>
        \<lparr>pvalue = JStr ''tok-123'', writable = True, configurable = True\<rparr>], extensible = True\<rparr>,
      cfg_url = Some ''/api/v1/accounts/1/contacts'', cfg_method = Some ''get'', cfg_data = ()\<rparr>)"
proof -
  let ?c = "\<lparr>cfg_headers = Some \<lparr>properties = [''api_access_token'' \<mapsto>
        \<lparr>pvalue = JStr ''tok-123'', writable = True, configurable = True\<rparr>], extensible = True\<rparr>,
      cfg_url = Some ''/api/v1/accounts/1/contacts'', cfg_method = Some ''get'', cfg_data = ()\<rparr>"
  let ?r = "\<lparr>cfg_headers = Some \<lparr>properties = [''api-access-token'' \<mapsto>
        \<lparr>pvalue = JStr ''tok-123'', writable = True, configurable = True\<rparr>], extensible = True\<rparr>,
      cfg_url = Some ''/api/v1/accounts/1/contacts'', cfg_method = Some ''get'', cfg_data = ()\<rparr>"
  have wf: "wellFormed ?c"
    by (simp add: wellFormed_def canDelete_def canAssign_def)
  have run: "interceptorStrict (Some ?c) = Inr ?r"
    by (simp add: interceptorStrict_def deleteStrict_def assignStrict_def getValue_def
        js_or_def Let_def fun_upd_twist)
  from interceptor_total [OF wf] obtain c' where
    "interceptorStrict (Some ?c) = Inr c'" "descriptorOf c' = normalize (descriptorOf ?c)"
    by blast
  with run have "descriptorOf ?r = normalize (descriptorOf ?c)" by simp
  with wf run show ?thesis by blast
qed

text \<open>
  A frozen header object with a token in it is not well-formed, and there the
  interceptor does throw.
\<close>

lemma interceptorStrict_frozen_throws:
  "interceptorStrict (Some \<lparr>cfg_headers = Some \<lparr>properties = [''api_access_token'' \<mapsto>
        \<lparr>pvalue = JStr ''tok-123'', writable = False, configurable = False\<rparr>], extensible = False\<rparr>,
      cfg_url = None, cfg_method = None, cfg_data = ()\<rparr>) = Inl TypeError"
  by (simp add: interceptorStrict_def deleteStrict_def getValue_def js_or_def Let_def)

text \<open>
  C8. A config whose \<^verbatim>\<open>api_access_token\<close> entry is falsy, with no truthy value under
  \<^verbatim>\<open>api-access-token\<close>, comes back unchanged from the interceptor and passes unchanged
  through the global wrapper: the underscore key stays and no hyphenated key is set,
  since both test the value's truthiness and not the key's presence.
\<close>

theorem falsy_token_unchanged:
  assumes "headerAt d ''api_access_token'' = Some v"
    and "\<not> truthy v"
    and "\<forall>w. headerAt d ''api-access-token'' = Some w \<longrightarrow> \<not> truthy w"
  shows "normalize d = d
       \<and> rewriteHeaders (Some d) = Some d
       \<and> headerAt (normalize d) ''api_access_token'' = Some v
       \<and> headerAt (normalize d) ''api-access-token'' = headerAt d ''api-access-token''"
proof -
  from assms(1) obtain h where h: "headers d = Some h" "h ''api_access_token'' = Some v"
    by (auto dest: headerAt_Some_headers)
  have us: "\<not> truthy (getProp h ''api_access_token'')"
    using h(2) assms(2) by (simp add: getProp_def)
  have hy: "\<not> truthy (getProp h ''api-access-token'')"
    using assms(3) h(1) by (cases "h ''api-access-token''") (simp_all add: getProp_def headerAt_def)
  from us hy have "\<not> truthy (js_or (getProp h ''api_access_token'') (getProp h ''api-access-token''))"
    by (simp add: truthy_js_or)
  with h(1) have n: "normalize d = d" by (rule normalize_falsy)
  from h(1) us have r: "rewriteHeaders (Some d) = Some d" by (rule rewriteHeaders_falsy)
  from n r assms(1) show ?thesis by simp
qed

theorem falsy_token_unchanged_witness:
  "\<not> truthy (JStr '''')
   \<and> normalize \<lparr>headers = Some [''api_access_token'' \<mapsto> JStr '''', ''api-access-token'' \<mapsto> JNull],
        url = Some ''/api/v1/ping'', http_method = None, data = ()\<rparr>
     = \<lparr>headers = Some [''api_access_token'' \<mapsto> JStr '''', ''api-access-token'' \<mapsto> JNull],
        url = Some ''/api/v1/ping'', http_method = None, data = ()\<rparr>
   \<and> rewriteHeaders (Some \<lparr>headers = Some [''api_access_token'' \<mapsto> JStr '''',
          ''api-access-token'' \<mapsto> JNull],
        url = Some ''/api/v1/ping'', http_method = None, data = ()\<rparr>)
     = Some \<lparr>headers = Some [''api_access_token'' \<mapsto> JStr '''', ''api-access-token'' \<mapsto> JNull],
        url = Some ''/api/v1/ping'', http_method = None, data = ()\<rparr>"
  using falsy_token_unchanged [of
      "\<lparr>headers = Some [''api_access_token'' \<mapsto> JStr '''', ''api-access-token'' \<mapsto> JNull],
        url = Some ''/api/v1/ping'', http_method = None, data = ()\<rparr>" "JStr ''''"]
  by (simp add: headerAt_def)

section \<open>Claims about the global patch\<close>

lemma patchAxiosGlobally_patched: "patched s \<Longrightarrow> patchAxiosGlobally s = s"
  by (simp add: patchAxiosGlobally_def)

lemma patchAxiosGlobally_first:
  "\<not> patched s \<Longrightarrow> axios s = Some ax \<Longrightarrow>
   patchAxiosGlobally s =
     s\<lparr>axios := Some (ax\<lparr>request := PatchedRequest (request ax),
             prototype_request := map_option PatchedRequest (prototype_request ax)\<rparr>),
       patched := True\<rparr>"
  by (simp add: patchAxiosGlobally_def)

lemma patchAxiosGlobally_twice: "patchAxiosGlobally (patchAxiosGlobally s) = patchAxiosGlobally s"
  by (cases "axios s") (simp_all add: patchAxiosGlobally_def)

lemma patchAxiosGlobally_repeated: "(patchAxiosGlobally ^^ Suc n) s = patchAxiosGlobally s"
  by (induction n) (simp_all add: patchAxiosGlobally_twice)

text \<open>
  C9. The global patch is applied at most once per process. Starting with the flag unset
  and axios loadable, the first call stores the wrapper around the current
  \<^verbatim>\<open>axios.request\<close> (and around \<^verbatim>\<open>Axios.prototype.request\<close> when it exists) and sets the
  flag; a call that finds the flag set returns with nothing changed; so any number of
  calls leaves the state that the first call left: one wrapper more than at the start,
  and a request whose config goes through the header rewrite once before it reaches the
  method that was there at the start. (Assignments to the axios object and the logger
  calls are taken not to throw.)
\<close>

theorem patchAxiosGlobally_once:
  assumes "\<not> patched s" and "axios s = Some ax"
  shows "patchAxiosGlobally s =
           \<lparr>patched = True,
            axios = Some \<lparr>request = PatchedRequest (request ax),
              prototype_request = map_option PatchedRequest (prototype_request ax)\<rparr>\<rparr>
       \<and> (\<forall>s'. patched s' \<longrightarrow> patchAxiosGlobally s' = s')
       \<and> (\<forall>n. (patchAxiosGlobally ^^ Suc n) s = patchAxiosGlobally s)
       \<and> (\<forall>n. \<exists>ax'. axios ((patchAxiosGlobally ^^ Suc n) s) = Some ax'
              \<and> layers (request ax') = Suc (layers (request ax))
              \<and> (\<forall>arg :: unit config option.
                    configSent (request ax') arg = configSent (request ax) (rewriteHeaders arg)))"
proof -
  have first: "patchAxiosGlobally s =
           \<lparr>patched = True,
            axios = Some \<lparr>request = PatchedRequest (request ax),
              prototype_request = map_option PatchedRequest (prototype_request ax)\<rparr>\<rparr>"
    using assms by (simp add: patchAxiosGlobally_first)
  have later: "\<forall>s'. patched s' \<longrightarrow> patchAxiosGlobally s' = s'"
    by (simp add: patchAxiosGlobally_patched)
  have rep: "\<forall>n. (patchAxiosGlobally ^^ Suc n) s = patchAxiosGlobally s"
    by (rule allI) (rule patchAxiosGlobally_repeated)
  have one: "\<exists>ax'. axios (patchAxiosGlobally s) = Some ax'
      \<and> layers (request ax') = Suc (layers (request ax))
      \<and> (\<forall>arg :: unit config option.
            configSent (request ax') arg = configSent (request ax) (rewriteHeaders arg))"
    unfolding first by simp
  have "\<forall>n. \<exists>ax'. axios ((patchAxiosGlobally ^^ Suc n) s) = Some ax'
      \<and> layers (request ax') = Suc (layers (request ax))
      \<and> (\<forall>arg :: unit config option.
            configSent (request ax') arg = configSent (request ax) (rewriteHeaders arg))"
  proof
    fix n
    have "(patchAxiosGlobally ^^ Suc n) s = patchAxiosGlobally s"
      by (rule patchAxiosGlobally_repeated)
    with one show "\<exists>ax'. axios ((patchAxiosGlobally ^^ Suc n) s) = Some ax'
      \<and> layers (request ax') = Suc (layers (request ax))
      \<and> (\<forall>arg :: unit config option.
            configSent (request ax') arg = configSent (request ax) (rewriteHeaders arg))"
      by (simp only:)
  qed
  with first later rep show ?thesis by blast
qed

theorem patchAxiosGlobally_once_witness:
  "(patchAxiosGlobally ^^ Suc 2)
      \<lparr>patched = False,
       axios = Some \<lparr>request = OriginalRequest, prototype_request = Some OriginalRequest\<rparr>\<rparr>
   = \<lparr>patched = True,
      axios = Some \<lparr>request = PatchedRequest OriginalRequest,
        prototype_request = Some (PatchedRequest OriginalRequest)\<rparr>\<rparr>"
proof -
  let ?ax = "\<lparr>request = OriginalRequest, prototype_request = Some OriginalRequest\<rparr>"
  let ?s = "\<lparr>patched = False, axios = Some ?ax\<rparr>"
  have a: "\<not> patched ?s" "axios ?s = Some ?ax" by simp_all
  note once = patchAxiosGlobally_once [OF a]
  have "(patchAxiosGlobally ^^ Suc 2) ?s = patchAxiosGlobally ?s"
    by (rule once [THEN conjunct2, THEN conjunct2, THEN conjunct1, rule_format])
  also have "patchAxiosGlobally ?s = \<lparr>patched = True,
      axios = Some \<lparr>request = PatchedRequest (request ?ax),
        prototype_request = map_option PatchedRequest (prototype_request ?ax)\<rparr>\<rparr>"
    by (rule once [THEN conjunct1])
  finally show ?thesis by simp
qed

section \<open>Claims about the post-install script\<close>

lemma includes_str_sublist: "includes_str s pat = sublist pat s"
  by (induction s) (simp_all add: sublist_Cons_right)

lemma replace_absent: "\<not> includes_str s pat \<Longrightarrow> replace s pat rep = s"
  by (induction s) auto

lemma replace_first_occurrence:
  "includes_str s pat \<Longrightarrow>
   \<exists>pre post. s = pre @ pat @ post \<and> replace s pat rep = pre @ rep @ post
     \<and> (\<forall>n < length pre. \<not> prefix pat (drop n s))"
proof (induction s)
  case Nil
  then show ?case by simp
next
  case (Cons c cs)
  show ?case
  proof (cases "prefix pat (c # cs)")
    case True
    then obtain post where post: "c # cs = pat @ post"
      by (auto simp: prefix_def)
    have "replace (c # cs) pat rep = rep @ drop (length pat) (c # cs)"
      using True by simp
    also have "drop (length pat) (c # cs) = post"
      unfolding post by simp
    finally have "c # cs = [] @ pat @ post \<and> replace (c # cs) pat rep = [] @ rep @ post
        \<and> (\<forall>n < length ([]::string). \<not> prefix pat (drop n (c # cs)))"
      using post by simp
    then show ?thesis by blast
  next
    case False
    with Cons.prems have "includes_str cs pat" by simp
    with Cons.IH obtain pre post where p: "cs = pre @ pat @ post"
      "replace cs pat rep = pre @ rep @ post"
      "\<forall>n < length pre. \<not> prefix pat (drop n cs)"
      by blast
    have "\<forall>n < length (c # pre). \<not> prefix pat (drop n (c # cs))"
    proof (intro allI impI)
      fix n assume n: "n < length (c # pre)"
      show "\<not> prefix pat (drop n (c # cs))"
      proof (cases n)
        case 0
        with False show ?thesis by simp
      next
        case (Suc m)
        with n p(3) show ?thesis by simp
      qed
    qed
    with p(1,2) False
    have "c # cs = (c # pre) @ pat @ post \<and> replace (c # cs) pat rep = (c # pre) @ rep @ post
        \<and> (\<forall>n < length (c # pre). \<not> prefix pat (drop n (c # cs)))"
      by simp
    then show ?thesis by blast
  qed
qed

lemma includes_str_replace:
  assumes "includes_str s pat" and "includes_str rep m"
  shows "includes_str (replace s pat rep) m"
proof -
  from replace_first_occurrence [OF assms(1), of rep]
  obtain pre post where r: "replace s pat rep = pre @ rep @ post" by blast
  from assms(2) obtain a b where "rep = a @ m @ b"
    by (auto simp: includes_str_sublist sublist_def)
  with r have "replace s pat rep = (pre @ a) @ m @ (b @ post)" by simp
  then show ?thesis
    unfolding includes_str_sublist sublist_def by blast
qed

lemma patchedLine_marker: "includes_str patchedLine ''api-access-token''"
  by (simp add: patchedLine_def)

lemma patchScript_marker:
  "includes_str c ''api-access-token'' \<Longrightarrow>
   patchScript (Some c) = \<lparr>exitCode = 0, wrote = False, fileAfter = Some c\<rparr>"
  by (simp add: patchScript_def)

lemma patchScript_fileAfter:
  "\<not> includes_str c ''api-access-token'' \<Longrightarrow>
   fileAfter (patchScript (Some c)) = Some (replace c originalLine patchedLine)"
  by (simp add: patchScript_def replace_absent)

lemma patchScript_second_run:
  "patchScript (fileAfter (patchScript old)) =
     \<lparr>exitCode = exitCode (patchScript (fileAfter (patchScript old))), wrote = False,
      fileAfter = fileAfter (patchScript old)\<rparr>"
proof (cases old)
  case None
  then show ?thesis by (simp add: patchScript_def)
next
  case (Some c)
  show ?thesis
  proof (cases "\<not> includes_str c ''api-access-token'' \<and> includes_str c originalLine")
    case True
    then have "includes_str (replace c originalLine patchedLine) ''api-access-token''"
      by (simp add: includes_str_replace patchedLine_marker)
    with True Some show ?thesis by (simp add: patchScript_def)
  next
    case False
    with Some show ?thesis by (auto simp: patchScript_def)
  qed
qed

text \<open>
  C10. The post-install script is idempotent on the SDK file. When the content already
  contains \<^verbatim>\<open>api-access-token\<close> the script exits without writing. Otherwise the file
  afterwards is the content with the first occurrence of the original line replaced by
  the hyphenated line: when the line occurs, the text before and after that occurrence is
  kept and no occurrence starts earlier. A second run writes nothing and leaves the file
  as the first run left it.
\<close>

theorem patchScript_idempotent:
  "(includes_str c ''api-access-token''
      \<longrightarrow> patchScript (Some c) = \<lparr>exitCode = 0, wrote = False, fileAfter = Some c\<rparr>)
   \<and> (\<not> includes_str c ''api-access-token''
      \<longrightarrow> fileAfter (patchScript (Some c)) = Some (replace c originalLine patchedLine))
   \<and> (includes_str c originalLine
      \<longrightarrow> (\<exists>pre post. c = pre @ originalLine @ post
            \<and> replace c originalLine patchedLine = pre @ patchedLine @ post
            \<and> (\<forall>n < length pre. \<not> prefix originalLine (drop n c))))
   \<and> fileAfter (patchScript (fileAfter (patchScript old))) = fileAfter (patchScript old)
   \<and> \<not> wrote (patchScript (fileAfter (patchScript old)))"
proof -
  have "fileAfter (patchScript (fileAfter (patchScript old))) = fileAfter (patchScript old)"
    "\<not> wrote (patchScript (fileAfter (patchScript old)))"
    by (subst patchScript_second_run, simp)+
  then show ?thesis
    by (simp add: patchScript_marker patchScript_fileAfter replace_first_occurrence)
qed

theorem patchScript_idempotent_witness:
  \<open>fileAfter (patchScript (Some ''if (token) { headers["api_access_token"] = token; }''))
     = Some ''if (token) { headers["api-access-token"] = token; }''
   \<and> fileAfter (patchScript (fileAfter (patchScript
        (Some ''if (token) { headers["api_access_token"] = token; }''))))
     = Some ''if (token) { headers["api-access-token"] = token; }''
   \<and> patchScript (Some ''if (token) { headers["api-access-token"] = token; }'')
     = \<lparr>exitCode = 0, wrote = False,
        fileAfter = Some ''if (token) { headers["api-access-token"] = token; }''\<rparr>\<close>
proof -
  let ?c = \<open>''if (token) { headers["api_access_token"] = token; }''\<close>
  let ?c' = \<open>''if (token) { headers["api-access-token"] = token; }''\<close>
  have n: "\<not> includes_str ?c ''api-access-token''" by simp
  have y: "includes_str ?c' ''api-access-token''" by simp
  have r: "replace ?c originalLine patchedLine = ?c'"
    by (simp add: originalLine_def patchedLine_def)
  from patchScript_idempotent [of ?c "Some ?c"] n
  have 1: "fileAfter (patchScript (Some ?c)) = Some (replace ?c originalLine patchedLine)"
    and 2: "fileAfter (patchScript (fileAfter (patchScript (Some ?c)))) = fileAfter (patchScript (Some ?c))"
    by blast+
  from patchScript_idempotent [of ?c'] y
  have 3: "patchScript (Some ?c') = \<lparr>exitCode = 0, wrote = False, fileAfter = Some ?c'\<rparr>"
    by blast
  from 1 2 3 r show ?thesis by simp
qed

end
